theory Spec2Isabelle
  imports Main
begin

section \<open>Python strings, values and format specifications\<close>

text \<open>
  A Python \<^verbatim>\<open>str\<close> is a sequence of Unicode code points, and \<^verbatim>\<open>len\<close>, slicing and the
  padding of a format specification all count code points. The frames of the log use
  box-drawing characters beyond one byte, so a Python string is modelled as a list of
  code points; \<open>lit\<close> turns an ASCII literal into one.
\<close>

type_synonym pystr = "nat list"

definition lit :: "string \<Rightarrow> pystr" where
  "lit s = map of_char s"

definition SPACE :: nat where "SPACE = 32"
definition NEWLINE :: nat where "NEWLINE = 10"
definition BOX_V :: nat where "BOX_V = 9553"
definition BOX_TL :: nat where "BOX_TL = 9556"
definition BOX_TR :: nat where "BOX_TR = 9559"
definition BOX_BL :: nat where "BOX_BL = 9562"
definition BOX_BR :: nat where "BOX_BR = 9565"
definition BOX_SL :: nat where "BOX_SL = 9567"
definition BOX_SR :: nat where "BOX_SR = 9570"
definition BOX_ML :: nat where "BOX_ML = 9568"
definition BOX_MR :: nat where "BOX_MR = 9571"

text \<open>\<^verbatim>\<open>s.ljust(w)\<close>, the padding of \<^verbatim>\<open>{s:<w}\<close>: spaces up to width \<open>w\<close>, nothing cut.\<close>

definition ljust :: "nat \<Rightarrow> pystr \<Rightarrow> pystr" where
  "ljust w s = s @ replicate (w - length s) SPACE"

definition zfill :: "nat \<Rightarrow> pystr \<Rightarrow> pystr" where
  "zfill w s = replicate (w - length s) 48 @ s"

fun dec :: "nat \<Rightarrow> pystr" where
  "dec n = (if n < 10 then [48 + n] else dec (n div 10) @ [48 + n mod 10])"

declare dec.simps [simp del]

text \<open>\<^verbatim>\<open>str(i)\<close> of an int, and \<^verbatim>\<open>{i:03d}\<close> (sign first, then zeros up to width 3).\<close>

definition str_int :: "int \<Rightarrow> pystr" where
  "str_int i = (if i < 0 then 45 # dec (nat (- i)) else dec (nat i))"

definition fmt_03d :: "int \<Rightarrow> pystr" where
  "fmt_03d i = (if i < 0 then 45 # zfill 2 (dec (nat (- i))) else zfill 3 (dec (nat i)))"

fun join :: "pystr \<Rightarrow> pystr list \<Rightarrow> pystr" where
  "join sep [] = []"
| "join sep [x] = x"
| "join sep (x # y # ys) = x @ sep @ join sep (y # ys)"

text \<open>
  The instrumentation observes the objects it is handed only through \<^verbatim>\<open>hasattr\<close>,
  truthiness, \<^verbatim>\<open>isinstance(_, list)\<close>, \<^verbatim>\<open>str()\<close> and \<^verbatim>\<open>format()\<close>. An item of a list is
  seen through \<^verbatim>\<open>str(item)\<close> (when it is logged) and through \<^verbatim>\<open>repr(item)\<close> (inside the
  \<^verbatim>\<open>str()\<close> of the list), so it is the pair of its two renderings. \<open>PObj ob t\<close> is any
  other object (a dict, a dataclass instance, ...) with renderings \<open>ob\<close> and truthiness
  \<open>t\<close>, whose \<^verbatim>\<open>__format__\<close> is the one of \<^verbatim>\<open>object\<close>.
\<close>

record pyobj =
  str_of :: pystr
  repr_of :: pystr

datatype pyval =
    PNone
  | PBool bool
  | PInt int
  | PStr pystr
  | PList "pyobj list"
  | PObj pyobj bool

datatype error = TypeError | ValueError | AttributeError | OtherError pystr

fun py_str :: "pyval \<Rightarrow> pystr" where
  "py_str PNone = lit ''None''"
| "py_str (PBool b) = (if b then lit ''True'' else lit ''False'')"
| "py_str (PInt i) = str_int i"
| "py_str (PStr s) = s"
| "py_str (PList xs) = lit ''['' @ join (lit '', '') (map repr_of xs) @ lit '']''"
| "py_str (PObj ob t) = str_of ob"

fun truthy :: "pyval \<Rightarrow> bool" where
  "truthy PNone = False"
| "truthy (PBool b) = b"
| "truthy (PInt i) = (i \<noteq> 0)"
| "truthy (PStr s) = (s \<noteq> [])"
| "truthy (PList xs) = (xs \<noteq> [])"
| "truthy (PObj ob t) = t"

text \<open>
  \<^verbatim>\<open>format(v, "<Ws")\<close>: only a \<^verbatim>\<open>str\<close> accepts the presentation type \<^verbatim>\<open>s\<close>. An int or a
  bool raises ValueError (unknown format code), every object that inherits
  \<^verbatim>\<open>object.__format__\<close> (None, a list, a dict, ...) raises TypeError (unsupported format
  string).
\<close>

fun fmt_s :: "nat \<Rightarrow> pyval \<Rightarrow> error + pystr" where
  "fmt_s w (PStr s) = Inr (ljust w s)"
| "fmt_s w (PInt i) = Inl ValueError"
| "fmt_s w (PBool b) = Inl ValueError"
| "fmt_s w PNone = Inl TypeError"
| "fmt_s w (PList xs) = Inl TypeError"
| "fmt_s w (PObj ob t) = Inl TypeError"

text \<open>\<^verbatim>\<open>format(v, "<Wd")\<close>: an int, or a bool as the int it is; anything else raises.\<close>

fun fmt_d :: "nat \<Rightarrow> pyval \<Rightarrow> error + pystr" where
  "fmt_d w (PInt i) = Inr (ljust w (str_int i))"
| "fmt_d w (PBool b) = Inr (ljust w (str_int (if b then 1 else 0)))"
| "fmt_d w (PStr s) = Inl ValueError"
| "fmt_d w PNone = Inl TypeError"
| "fmt_d w (PList xs) = Inl TypeError"
| "fmt_d w (PObj ob t) = Inl TypeError"

text \<open>\<^verbatim>\<open>s.split("\n")\<close>: the pieces between newlines, empty pieces kept.\<close>

fun split_nl :: "pystr \<Rightarrow> pystr list" where
  "split_nl [] = [[]]"
| "split_nl (c # cs) =
     (if c = NEWLINE then [] # split_nl cs
      else (case split_nl cs of [] \<Rightarrow> [[c]] | l # ls \<Rightarrow> (c # l) # ls))"

section \<open>The logging sink\<close>

text \<open>
  Every \<^verbatim>\<open>logger.info(...)\<close> statement first evaluates its argument, which raises when a
  format specification does not fit the value, and then writes one message. A statement
  is therefore an error or a message; running a block of statements writes messages up
  to the first statement that raises.
\<close>

type_synonym stmt = "error + pystr"

fun run_log :: "stmt list \<Rightarrow> pystr list \<times> error option" where
  "run_log [] = ([], None)"
| "run_log (Inl e # rest) = ([], Some e)"
| "run_log (Inr l # rest) = (case run_log rest of (ls, r) \<Rightarrow> (l # ls, r))"

fun is_msg :: "stmt \<Rightarrow> bool" where
  "is_msg (Inr l) = True"
| "is_msg (Inl e) = False"

definition info :: "pystr \<Rightarrow> stmt" where
  "info l = Inr l"

text \<open>An f-string \<^verbatim>\<open>f"pre{v:spec}post"\<close> around one formatted value.\<close>

definition fstr :: "pystr \<Rightarrow> error + pystr \<Rightarrow> pystr \<Rightarrow> stmt" where
  "fstr pre v post = (case v of Inl e \<Rightarrow> Inl e | Inr s \<Rightarrow> Inr (pre @ s @ post))"

definition top_frame :: pystr where
  "top_frame = [NEWLINE, BOX_TL] @ replicate 98 61 @ [BOX_TR]"

definition mid_frame :: pystr where
  "mid_frame = [BOX_ML] @ replicate 98 61 @ [BOX_MR]"

definition sep_frame :: pystr where
  "sep_frame = [BOX_SL] @ replicate 98 45 @ [BOX_SR]"

definition bottom_frame :: pystr where
  "bottom_frame = [BOX_BL] @ replicate 98 61 @ [BOX_BR, NEWLINE]"

text \<open>\<^verbatim>\<open>"\<bar> text" + " "*n + "\<bar>"\<close> with the vertical bar of the frame.\<close>

definition boxed :: "pystr \<Rightarrow> nat \<Rightarrow> pystr" where
  "boxed s n = [BOX_V, SPACE] @ s @ replicate n SPACE @ [BOX_V]"

section \<open>The responses and requests the interceptor sees\<close>

text \<open>
  A response is read through \<^verbatim>\<open>hasattr\<close>, so each attribute is optional: \<open>None\<close> is an
  attribute the object does not have, \<open>Some v\<close> one it has with value \<open>v\<close> (which may be
  Python's \<^verbatim>\<open>None\<close>, \<open>PNone\<close>). \<open>obj_id\<close> stands for the identity of the object
  (\<^verbatim>\<open>id(response)\<close>). The usage attribute is either a falsy value or an object read through
  its token-count attributes.
\<close>

record usage_obj =
  prompt_tokens :: "pyval option"
  completion_tokens :: "pyval option"
  total_tokens :: "pyval option"

datatype usage_val = UsageFalsy | UsageObj usage_obj

record response_obj =
  obj_id :: nat
  content :: "pyval option"
  thought :: "pyval option"
  usage :: "usage_val option"
  finish_reason :: "pyval option"

text \<open>
  \<^verbatim>\<open>**kwargs\<close>: the interceptor reads \<^verbatim>\<open>kwargs.get('model', 'N/A')\<close> and, when the key is
  there, the items of the dict \<^verbatim>\<open>kwargs['extra_body']\<close> in order (a key is logged through
  \<^verbatim>\<open>str\<close>, so it is kept as that string); every other option goes to the delegate
  unread.
\<close>

record kwargs =
  model :: "pyval option"
  extra_body :: "(pystr \<times> pyval) list option"
  other_options :: "(pystr \<times> pyval) list"

text \<open>One entry of \<^verbatim>\<open>self.raw_responses\<close>, and the two attributes \<^verbatim>\<open>__init__\<close> adds.\<close>

record call_record =
  call_id :: int
  response :: response_obj
  has_content :: bool
  has_thought :: bool

record client =
  raw_responses :: "call_record list"
  call_count :: int

definition new_client :: client where
  "new_client = \<lparr>raw_responses = [], call_count = 0\<rparr>"

text \<open>
  The inherited \<^verbatim>\<open>create\<close> is the external chat-completion client: it returns a response
  or raises.
\<close>

type_synonym delegate = "pyval list \<Rightarrow> kwargs \<Rightarrow> error + response_obj"

section \<open>DebugVLLMClient.create\<close>

definition log_request :: "int \<Rightarrow> pyval list \<Rightarrow> kwargs \<Rightarrow> stmt list" where
  "log_request cid messages kw =
     [info top_frame,
      info (boxed (lit ''vLLM API CALL #'' @ fmt_03d cid @ lit '' - REQUEST'') 70),
      info mid_frame,
      fstr (BOX_V # lit '' Model: '')
        (fmt_s 91 (case model kw of None \<Rightarrow> PStr (lit ''N/A'') | Some v \<Rightarrow> v))
        [SPACE, BOX_V],
      info (boxed (lit ''Messages: '' @ dec (length messages) @ lit '' message(s)'') 73)]
     @ (case extra_body kw of
          None \<Rightarrow> []
        | Some items \<Rightarrow>
            info (boxed (lit ''Extra body parameters:'') 75)
            # map (\<lambda>(k, v). fstr (BOX_V # lit ''   '' @ k @ lit '': '') (fmt_s 86 v) [SPACE, BOX_V])
                items)
     @ [info bottom_frame]"

text \<open>
  \<^verbatim>\<open>while line: logger.info(f"\<bar> {line[:96]:<96s} \<bar>"); line = line[96:]\<close>, the loop of
  scalar content and of the thought.
\<close>

definition row96 :: "pystr \<Rightarrow> pystr" where
  "row96 chunk = [BOX_V, SPACE] @ ljust 96 chunk @ [SPACE, BOX_V]"

function wrap96 :: "pystr \<Rightarrow> stmt list" where
  "wrap96 line = (if line = [] then [] else info (row96 (take 96 line)) # wrap96 (drop 96 line))"
  by pat_completeness auto
termination
  by (relation "measure length") auto

declare wrap96.simps [simp del]

text \<open>
  A list item: \<^verbatim>\<open>str(item)[:91]\<close> on a first row that carries the index, then
  \<^verbatim>\<open>while remaining:\<close> continuation rows of 91.
\<close>

definition first_row91 :: "nat \<Rightarrow> pystr \<Rightarrow> pystr" where
  "first_row91 idx chunk =
     BOX_V # lit '' ['' @ dec idx @ lit ''] '' @ ljust 91 chunk @ [SPACE, BOX_V]"

definition row91 :: "pystr \<Rightarrow> pystr" where
  "row91 chunk = BOX_V # lit ''     '' @ ljust 91 chunk @ [SPACE, BOX_V]"

function wrap91 :: "pystr \<Rightarrow> stmt list" where
  "wrap91 remaining =
     (if remaining = [] then []
      else info (row91 (take 91 remaining)) # wrap91 (drop 91 remaining))"
  by pat_completeness auto
termination
  by (relation "measure length") auto

declare wrap91.simps [simp del]

definition item_rows :: "nat \<Rightarrow> pystr \<Rightarrow> stmt list" where
  "item_rows idx s = info (first_row91 idx (take 91 s)) # wrap91 (drop 91 s)"

definition text_rows :: "pystr \<Rightarrow> stmt list" where
  "text_rows s = concat (map wrap96 (split_nl s))"

definition content_block :: "pyval \<Rightarrow> stmt list" where
  "content_block c =
     [info (boxed (lit ''CONTENT (Final Answer Channel):'') 65), info sep_frame]
     @ (case c of
          PList items \<Rightarrow>
            concat (map (\<lambda>(idx, item). item_rows idx (str_of item)) (enumerate 0 items))
        | _ \<Rightarrow> text_rows (py_str c))"

definition thought_block :: "pyval \<Rightarrow> stmt list" where
  "thought_block t =
     [info sep_frame, info (boxed (lit ''THOUGHT (Reasoning Channel):'') 68), info sep_frame]
     @ text_rows (py_str t)"

text \<open>Reading an attribute the usage object does not have raises AttributeError.\<close>

definition token_line :: "pystr \<Rightarrow> nat \<Rightarrow> pyval option \<Rightarrow> stmt" where
  "token_line label w attr =
     (case attr of
        None \<Rightarrow> Inl AttributeError
      | Some v \<Rightarrow> fstr (BOX_V # label) (fmt_d w v) [SPACE, BOX_V])"

definition usage_block :: "usage_obj \<Rightarrow> stmt list" where
  "usage_block u =
     [info sep_frame,
      info (boxed (lit ''USAGE STATISTICS:'') 80),
      token_line (lit ''   Prompt tokens: '') 82 (prompt_tokens u),
      token_line (lit ''   Completion tokens: '') 78 (completion_tokens u)]
     @ (case total_tokens u of
          None \<Rightarrow> []
        | Some v \<Rightarrow> [token_line (lit ''   Total tokens: '') 83 (Some v)])"

definition finish_block :: "pyval \<Rightarrow> stmt list" where
  "finish_block v =
     [info sep_frame, fstr (BOX_V # lit '' Finish reason: '') (fmt_s 82 v) [SPACE, BOX_V]]"

text \<open>\<^verbatim>\<open>hasattr(response, a) and response.a\<close>, as a condition.\<close>

definition present_truthy :: "pyval option \<Rightarrow> bool" where
  "present_truthy a = (case a of None \<Rightarrow> False | Some v \<Rightarrow> truthy v)"

definition log_response :: "int \<Rightarrow> response_obj \<Rightarrow> stmt list" where
  "log_response cid r =
     [info top_frame,
      info (boxed (lit ''vLLM API CALL #'' @ fmt_03d cid @ lit '' - RESPONSE (CreateResult)'') 52),
      info mid_frame]
     @ (case content r of Some c \<Rightarrow> if truthy c then content_block c else [] | None \<Rightarrow> [])
     @ (case thought r of Some t \<Rightarrow> if truthy t then thought_block t else [] | None \<Rightarrow> [])
     @ (case usage r of Some (UsageObj u) \<Rightarrow> usage_block u | _ \<Rightarrow> [])
     @ (case finish_reason r of Some v \<Rightarrow> finish_block v | None \<Rightarrow> [])
     @ [info bottom_frame]"

text \<open>
  \<^verbatim>\<open>create\<close> returns what the caller sees (the response, or the exception that left the
  method), the client as the call leaves it, and the messages written to the log. The
  counter is assigned before anything can raise; the record is appended after the last
  log statement. The source's \<^verbatim>\<open>raw_completion\<close> lines in between have no effect.
\<close>

definition create ::
  "delegate \<Rightarrow> client \<Rightarrow> pyval list \<Rightarrow> kwargs \<Rightarrow> (error + response_obj) \<times> client \<times> pystr list"
where
  "create super_create self messages kw =
     (let self1 = self\<lparr>call_count := call_count self + 1\<rparr>;
          cid = call_count self1
      in case run_log (log_request cid messages kw) of
           (out1, Some e) \<Rightarrow> (Inl e, self1, out1)
         | (out1, None) \<Rightarrow>
             (case super_create messages kw of
                Inl e \<Rightarrow> (Inl e, self1, out1)
              | Inr resp \<Rightarrow>
                  (case run_log (log_response cid resp) of
                     (out2, Some e) \<Rightarrow> (Inl e, self1, out1 @ out2)
                   | (out2, None) \<Rightarrow>
                       (Inr resp,
                        self1\<lparr>raw_responses := raw_responses self1 @
                          [\<lparr>call_id = cid, response = resp,
                            has_content = present_truthy (content resp),
                            has_thought = present_truthy (thought resp)\<rparr>]\<rparr>,
                        out1 @ out2))))"

section \<open>DebugVLLMClient.get_response_summary\<close>

text \<open>\<^verbatim>\<open>f"\<bar> Call #{resp_info['call_id']:03d}:" + " "*87 + "\<bar>"\<close>, the first line of an entry.\<close>

definition call_line :: "int \<Rightarrow> pystr" where
  "call_line k = boxed (lit ''Call #'' @ fmt_03d k @ lit '':'') 87"

definition summary_entry :: "call_record \<Rightarrow> pystr list" where
  "summary_entry r =
     [call_line (call_id r),
      BOX_V # lit ''   Has content: '' @ ljust 84 (py_str (PBool (has_content r))) @ [SPACE, BOX_V],
      BOX_V # lit ''   Has thought: '' @ ljust 84 (py_str (PBool (has_thought r))) @ [SPACE, BOX_V]]"

text \<open>\<^verbatim>\<open>for idx, resp_info in enumerate(self.raw_responses, 1)\<close>, with \<open>n\<close> the length of the list.\<close>

fun summary_loop :: "nat \<Rightarrow> nat \<Rightarrow> call_record list \<Rightarrow> pystr list" where
  "summary_loop idx n [] = []"
| "summary_loop idx n (r # rs) =
     summary_entry r @ (if idx < n then [sep_frame] else []) @ summary_loop (idx + 1) n rs"

definition total_line :: "int \<Rightarrow> pystr" where
  "total_line n = BOX_V # lit '' Total API calls: '' @ ljust 82 (str_int n) @ [SPACE, BOX_V]"

text \<open>The method assigns to nothing: it hands the client back as it got it.\<close>

definition get_response_summary :: "client \<Rightarrow> pystr list \<times> client" where
  "get_response_summary self =
     ([top_frame, boxed (lit ''VLLM RESPONSE SUMMARY'') 75, mid_frame,
       total_line (call_count self), sep_frame]
      @ summary_loop 1 (length (raw_responses self)) (raw_responses self)
      @ [bottom_frame],
      self)"

section \<open>Typed inputs, and sequences of calls\<close>

text \<open>
  The types the data model gives the values that the log formats with a presentation
  type: the model identifier and the extra options are strings, the token counts are
  ints (a bool is an int), the finish reason is a string code. Content and thought are
  logged through \<^verbatim>\<open>str()\<close> and may be anything.
\<close>

fun is_str :: "pyval \<Rightarrow> bool" where
  "is_str (PStr s) = True"
| "is_str v = False"

fun is_int :: "pyval \<Rightarrow> bool" where
  "is_int (PInt i) = True"
| "is_int (PBool b) = True"
| "is_int v = False"

definition well_typed_request :: "kwargs \<Rightarrow> bool" where
  "well_typed_request kw =
     ((case model kw of None \<Rightarrow> True | Some v \<Rightarrow> is_str v) \<and>
      (case extra_body kw of None \<Rightarrow> True | Some items \<Rightarrow> list_all (\<lambda>(k, v). is_str v) items))"

definition well_typed_usage :: "usage_obj \<Rightarrow> bool" where
  "well_typed_usage u =
     ((case prompt_tokens u of None \<Rightarrow> False | Some v \<Rightarrow> is_int v) \<and>
      (case completion_tokens u of None \<Rightarrow> False | Some v \<Rightarrow> is_int v) \<and>
      (case total_tokens u of None \<Rightarrow> True | Some v \<Rightarrow> is_int v))"

definition well_typed_response :: "response_obj \<Rightarrow> bool" where
  "well_typed_response r =
     ((case usage r of Some (UsageObj u) \<Rightarrow> well_typed_usage u | _ \<Rightarrow> True) \<and>
      (case finish_reason r of None \<Rightarrow> True | Some v \<Rightarrow> is_str v))"

text \<open>
  The delegate is awaited once the request block has been logged: it is reached when no
  statement of that block raises.
\<close>

definition delegate_reached :: "client \<Rightarrow> pyval list \<Rightarrow> kwargs \<Rightarrow> bool" where
  "delegate_reached self messages kw =
     (snd (run_log (log_request (call_count self + 1) messages kw)) = None)"

text \<open>
  A call is the delegate's behaviour at that call with the arguments passed. A caller
  that goes on after a failed call (the agent framework catching the exception) makes
  the next call on the client as the failed one left it.
\<close>

type_synonym call = "delegate \<times> pyval list \<times> kwargs"

fun run_calls :: "client \<Rightarrow> call list \<Rightarrow> client" where
  "run_calls self [] = self"
| "run_calls self ((d, messages, kw) # cs) = run_calls (fst (snd (create d self messages kw))) cs"

text \<open>
  A call returns when \<^verbatim>\<open>create\<close> hands a response back; whether it does is the same on
  every client, since the counter only shows inside messages.
\<close>

definition call_returns :: "call \<Rightarrow> bool" where
  "call_returns c =
     (case c of (d, messages, kw) \<Rightarrow>
        (case fst (create d new_client messages kw) of Inr r \<Rightarrow> True | Inl e \<Rightarrow> False))"

definition typed_call_returning :: "call \<Rightarrow> bool" where
  "typed_call_returning c =
     (case c of (d, messages, kw) \<Rightarrow>
        well_typed_request kw \<and>
        (case d messages kw of Inr r \<Rightarrow> well_typed_response r | Inl e \<Rightarrow> False))"

text \<open>
  The identifiers that a sequence of calls leaves in the history when the counter
  starts at \<open>n\<close>: every call takes the next number, and the calls that return keep theirs.
\<close>

fun ok_ids :: "int \<Rightarrow> call list \<Rightarrow> int list" where
  "ok_ids n [] = []"
| "ok_ids n (c # cs) = (if typed_call_returning c then [n + 1] else []) @ ok_ids (n + 1) cs"

section \<open>The wrapping, as the specification words it\<close>

text \<open>
  The rows a line of length \<open>L\<close> is to take at width \<open>W\<close> according to the specification:
  \<open>ceil (L / W)\<close>, and at least one.
\<close>

definition spec_row_count :: "nat \<Rightarrow> nat \<Rightarrow> nat" where
  "spec_row_count w l = max 1 ((l + w - 1) div w)"

text \<open>Row \<open>i\<close> of a line holds its characters \<open>i * w ..< (i + 1) * w\<close>.\<close>

definition chunks :: "nat \<Rightarrow> pystr \<Rightarrow> pystr list" where
  "chunks w s = map (\<lambda>i. take w (drop (i * w) s)) [0..<(length s + w - 1) div w]"

text \<open>Entries with a separator between consecutive ones and none after the last.\<close>

fun sep_between :: "pystr list list \<Rightarrow> pystr list" where
  "sep_between [] = []"
| "sep_between [e] = e"
| "sep_between (e # e' # es) = e @ [sep_frame] @ sep_between (e' # es)"

section \<open>The example driver\<close>

definition DEFAULT_SYSTEM_PROMPT :: string where
  "DEFAULT_SYSTEM_PROMPT =
     ''You are a world-class chemist. Your task is to generate unique molecules '' @
     ''based on the lead molecule provided by the user. The generated molecules '' @
     ''should be chemically valid and diverse, exploring different chemical spaces '' @
     ''while maintaining some structural similarity to the lead molecule. '' @
     ''Provide the final answer in a clear and concise manner.''"

definition DEFAULT_USER_PROMPT :: string where
  "DEFAULT_USER_PROMPT =
     ''Generate a unique molecule based on the lead molecule provided. '' @
     ''The lead molecule is CCO. Use SMILES format for the molecules. '' @
     ''Ensure the generated molecule is chemically valid and unique, '' @
     ''using the tools provided. Check the price of the generated molecule '' @
     ''using the molecule pricing tool, and get a cheap molecule. '' @
     ''Once you find a molecule that is unique (not known) and reasonably cheap '' @
     ''(price <= $20), provide your final answer with the SMILES string and price. '' @
     ''Do not continue searching indefinitely.''"

datatype servers = OneServer string | ServerList "string list"

text \<open>
  Modelled from the spec: the base class \<^verbatim>\<open>Task\<close> (\<^verbatim>\<open>charge.tasks.Task\<close>) is not among the
  sources. A task is the four keyword arguments its initialiser is called with.
\<close>

record task =
  system_prompt :: string
  user_prompt :: string
  server_urls :: "servers option"
  server_paths :: "servers option"

definition ChargeMultiServerTask ::
  "string option \<Rightarrow> string option \<Rightarrow> servers option \<Rightarrow> servers option \<Rightarrow> task"
where
  "ChargeMultiServerTask sys_prompt usr_prompt urls paths =
     (let sys_prompt' = (case sys_prompt of None \<Rightarrow> DEFAULT_SYSTEM_PROMPT | Some s \<Rightarrow> s);
          usr_prompt' = (case usr_prompt of None \<Rightarrow> DEFAULT_USER_PROMPT | Some s \<Rightarrow> s)
      in \<lparr>system_prompt = sys_prompt', user_prompt = usr_prompt',
          server_urls = urls, server_paths = paths\<rparr>)"

text \<open>
  What \<^verbatim>\<open>parser.parse_args()\<close> hands the script: \<^verbatim>\<open>--system-prompt\<close> and \<^verbatim>\<open>--user-prompt\<close>
  are declared with \<^verbatim>\<open>type=str, default=None\<close>, so each is \<open>None\<close> when its flag is not
  given and the string given otherwise; the server URLs come from the standard client
  arguments.
\<close>

record cli_args =
  arg_system_prompt :: "string option"
  arg_user_prompt :: "string option"
  arg_server_urls :: "servers option"

definition main_task :: "cli_args \<Rightarrow> task" where
  "main_task args =
     (let urls = arg_server_urls args;
          server_path_1 = ''stdio_server_1.py'';
          server_path_2 = ''stdio_server_2.py''
      in ChargeMultiServerTask (arg_system_prompt args) (arg_user_prompt args) urls
           (Some (ServerList [server_path_1, server_path_2])))"

section \<open>Example inputs\<close>

text \<open>
  The response of the specification's example scenario (content \<^verbatim>\<open>"Hello"\<close>, no thought,
  10 + 5 = 15 tokens, finish reason \<^verbatim>\<open>"stop"\<close>), a delegate that returns it, a delegate
  that raises, and a call without options.
\<close>

definition hello_response :: response_obj where
  "hello_response =
     \<lparr>obj_id = 7, content = Some (PStr (lit ''Hello'')), thought = Some PNone,
      usage = Some (UsageObj \<lparr>prompt_tokens = Some (PInt 10), completion_tokens = Some (PInt 5),
                              total_tokens = Some (PInt 15)\<rparr>),
      finish_reason = Some (PStr (lit ''stop''))\<rparr>"

definition plain_kwargs :: kwargs where
  "plain_kwargs = \<lparr>model = None, extra_body = None, other_options = []\<rparr>"

definition hello_delegate :: delegate where
  "hello_delegate messages kw = Inr hello_response"

definition failing_delegate :: delegate where
  "failing_delegate messages kw = Inl (OtherError (lit ''APIConnectionError''))"

text \<open>A response whose content is the empty string and whose thought is the empty list.\<close>

definition empty_content_response :: response_obj where
  "empty_content_response =
     \<lparr>obj_id = 8, content = Some (PStr []), thought = Some (PList []), usage = None,
      finish_reason = None\<rparr>"

definition empty_content_delegate :: delegate where
  "empty_content_delegate messages kw = Inr empty_content_response"

text \<open>
  A request whose extra body holds an int (\<^verbatim>\<open>extra_body={"top_k": 20}\<close>), and a response
  whose content, thought and finish reason are \<^verbatim>\<open>None\<close>, with a usage of two token counts.
\<close>

definition topk_kwargs :: kwargs where
  "topk_kwargs = \<lparr>model = None, extra_body = Some [(lit ''top_k'', PInt 20)], other_options = []\<rparr>"

definition none_finish_response :: response_obj where
  "none_finish_response =
     \<lparr>obj_id = 9, content = Some PNone, thought = Some PNone,
      usage = Some (UsageObj \<lparr>prompt_tokens = Some (PInt 10), completion_tokens = Some (PInt 5),
                              total_tokens = None\<rparr>),
      finish_reason = Some PNone\<rparr>"

definition none_finish_delegate :: delegate where
  "none_finish_delegate messages kw = Inr none_finish_response"

section \<open>Facts about the formats and the log\<close>

lemma dec_small: "n < 10 \<Longrightarrow> dec n = [48 + n]"
  by (simp add: dec.simps)

lemma run_log_ok_iff: "snd (run_log xs) = None \<longleftrightarrow> list_all is_msg xs"
  by (induction xs rule: run_log.induct) (auto split: prod.splits)

lemma run_log_append_ok:
  "run_log xs = (ls, None) \<Longrightarrow> run_log (xs @ ys) = (ls @ fst (run_log ys), snd (run_log ys))"
  by (induction xs arbitrary: ls rule: run_log.induct) (auto split: prod.splits)

lemma is_msg_info [simp]: "is_msg (info l)"
  by (simp add: info_def)

lemma is_msg_fstr [simp]: "is_msg (fstr pre v post) = is_msg v"
  by (cases v) (simp_all add: fstr_def)

lemma is_msg_fmt_s [simp]: "is_msg (fmt_s w v) = is_str v"
  by (cases v) simp_all

lemma is_msg_fmt_d [simp]: "is_msg (fmt_d w v) = is_int v"
  by (cases v) simp_all

lemma wrap96_ok [simp]: "list_all is_msg (wrap96 line)"
  by (induction line rule: wrap96.induct) (subst wrap96.simps, simp)

lemma wrap91_ok [simp]: "list_all is_msg (wrap91 line)"
  by (induction line rule: wrap91.induct) (subst wrap91.simps, simp)

lemma list_all_concat_map:
  "(\<And>x. x \<in> set xs \<Longrightarrow> list_all P (f x)) \<Longrightarrow> list_all P (concat (map f xs))"
  by (induction xs) auto

lemma text_rows_ok [simp]: "list_all is_msg (text_rows t)"
  by (simp add: text_rows_def list_all_concat_map)

lemma item_rows_ok [simp]: "list_all is_msg (item_rows idx t)"
  by (simp add: item_rows_def)

lemma content_block_ok [simp]: "list_all is_msg (content_block c)"
  by (cases c) (simp_all add: content_block_def list_all_concat_map split_beta)

lemma thought_block_ok [simp]: "list_all is_msg (thought_block c)"
  by (simp add: thought_block_def)

lemma log_request_ok_iff:
  "snd (run_log (log_request cid messages kw)) = None \<longleftrightarrow> well_typed_request kw"
proof -
  have e: "list_all is_msg (map (\<lambda>(k, v). fstr (f k) (fmt_s w v) post) items)
             \<longleftrightarrow> list_all (\<lambda>(k, v). is_str v) items" for f w post and items :: "(pystr \<times> pyval) list"
    by (induction items) (simp_all add: split_beta)
  show ?thesis
    unfolding run_log_ok_iff log_request_def well_typed_request_def
    by (cases "model kw"; cases "extra_body kw") (simp_all add: e)
qed

lemma token_line_ok_iff [simp]:
  "is_msg (token_line label w a) \<longleftrightarrow> (case a of None \<Rightarrow> False | Some v \<Rightarrow> is_int v)"
  by (cases a) (simp_all add: token_line_def)

lemma usage_block_ok_iff [simp]: "list_all is_msg (usage_block u) \<longleftrightarrow> well_typed_usage u"
  by (cases "total_tokens u") (simp_all add: usage_block_def well_typed_usage_def)

lemma finish_block_ok_iff [simp]: "list_all is_msg (finish_block v) \<longleftrightarrow> is_str v"
  by (simp add: finish_block_def)

lemma log_response_ok_iff:
  "snd (run_log (log_response cid r)) = None \<longleftrightarrow> well_typed_response r"
  unfolding run_log_ok_iff log_response_def well_typed_response_def
  by (simp split: option.splits usage_val.splits)

lemma create_returns_iff:
  "fst (create d self messages kw) = Inr r \<longleftrightarrow>
     well_typed_request kw \<and> d messages kw = Inr r \<and> well_typed_response r"
proof -
  obtain out1 e1 where a: "run_log (log_request (call_count self + 1) messages kw) = (out1, e1)"
    by force
  have b: "e1 = None \<longleftrightarrow> well_typed_request kw"
    using log_request_ok_iff [of "call_count self + 1" messages kw] a by simp
  show ?thesis
  proof (cases "d messages kw")
    case (Inl e)
    then show ?thesis using a b by (cases e1) (simp_all add: create_def Let_def)
  next
    case (Inr r')
    obtain out2 e2 where c: "run_log (log_response (call_count self + 1) r') = (out2, e2)"
      by force
    have d: "e2 = None \<longleftrightarrow> well_typed_response r'"
      using log_response_ok_iff [of "call_count self + 1" r'] c by simp
    show ?thesis using a b c d Inr by (cases e1; cases e2) (auto simp: create_def Let_def)
  qed
qed

lemma create_call_count:
  "call_count (fst (snd (create d self messages kw))) = call_count self + 1"
  by (simp add: create_def Let_def split: prod.splits option.splits sum.splits)

lemma create_raw_responses:
  "raw_responses (fst (snd (create d self messages kw))) =
     (case fst (create d self messages kw) of
        Inl e \<Rightarrow> raw_responses self
      | Inr r \<Rightarrow> raw_responses self @
          [\<lparr>call_id = call_count self + 1, response = r,
            has_content = present_truthy (content r),
            has_thought = present_truthy (thought r)\<rparr>])"
  by (simp add: create_def Let_def split: prod.splits option.splits sum.splits)

lemma delegate_reached_iff: "delegate_reached self messages kw \<longleftrightarrow> well_typed_request kw"
  by (simp add: delegate_reached_def log_request_ok_iff)

lemma create_typed:
  assumes "well_typed_request kw" and "d messages kw = Inr r" and "well_typed_response r"
  shows "fst (create d self messages kw) = Inr r"
  using assms by (simp add: create_returns_iff)

lemma run_calls_typed:
  "list_all typed_call_returning calls \<Longrightarrow>
     call_count (run_calls self calls) = call_count self + int (length calls) \<and>
     map call_id (raw_responses (run_calls self calls)) =
       map call_id (raw_responses self) @ map (\<lambda>i. call_count self + int i) [1..<Suc (length calls)]"
proof (induction calls arbitrary: self)
  case Nil
  show ?case by simp
next
  case (Cons c calls)
  obtain d messages kw where c: "c = (d, messages, kw)" by (cases c)
  from Cons.prems c obtain r where
    r: "well_typed_request kw" "d messages kw = Inr r" "well_typed_response r"
    by (auto simp: typed_call_returning_def split: sum.splits)
  let ?s = "fst (snd (create d self messages kw))"
  have ok: "fst (create d self messages kw) = Inr r" using r by (rule create_typed)
  have cc: "call_count ?s = call_count self + 1" by (rule create_call_count)
  have rr: "map call_id (raw_responses ?s) = map call_id (raw_responses self) @ [call_count self + 1]"
    by (simp add: create_raw_responses ok)
  have ih: "call_count (run_calls ?s calls) = call_count ?s + int (length calls) \<and>
     map call_id (raw_responses (run_calls ?s calls)) =
       map call_id (raw_responses ?s) @ map (\<lambda>i. call_count ?s + int i) [1..<Suc (length calls)]"
    using Cons.IH Cons.prems by simp
  have upt: "[Suc 0..<Suc (Suc (length calls))] = Suc 0 # map Suc [Suc 0..<Suc (length calls)]"
    by (simp add: upt_conv_Cons map_Suc_upt del: upt_Suc)
  have shift: "map (\<lambda>i. call_count self + int i) [Suc 0..<Suc (Suc (length calls))] =
      (call_count self + 1) # map (\<lambda>i. call_count self + 1 + int i) [Suc 0..<Suc (length calls)]"
    by (simp only: upt list.map map_map o_def) simp
  show ?case using ih by (simp add: c cc rr shift del: upt_Suc)
qed

lemma typed_plain: "well_typed_request plain_kwargs"
  by (simp add: plain_kwargs_def well_typed_request_def)

lemma typed_hello: "well_typed_response hello_response"
  by (simp add: hello_response_def well_typed_response_def well_typed_usage_def)

lemma summary_loop_sep_between:
  "idx + length rs = Suc n \<Longrightarrow> summary_loop idx n rs = sep_between (map summary_entry rs)"
proof (induction rs arbitrary: idx)
  case Nil
  show ?case by simp
next
  case (Cons r rs)
  show ?case
  proof (cases rs)
    case Nil
    then show ?thesis using Cons.prems by simp
  next
    case (Cons r' rs')
    then have "idx < n" and "Suc idx + length rs = Suc n" using Cons.prems by simp_all
    then show ?thesis using Cons.IH [of "Suc idx"] Cons by simp
  qed
qed

lemma chunk_count_step:
  assumes "0 < w" and "0 < n"
  shows "(n + w - 1) div w = Suc ((n - w + w - 1) div w)"
proof (cases "n \<le> w")
  case True
  have e: "n + w - 1 = (n - 1) + w" using assms by simp
  have "((n - 1) + w) div w = (n - 1) div w + 1" using assms by (simp only: div_add_self2) 
  moreover have "(n - 1) div w = 0" using True assms by simp
  ultimately have a: "(n + w - 1) div w = Suc 0" by (simp only: e)
  have "(n - w + w - 1) div w = 0" using True assms by simp
  then show ?thesis using a by simp
next
  case False
  then have e: "n + w - 1 = (n - w + w - 1) + w" using assms by simp
  have "((n - w + w - 1) + w) div w = (n - w + w - 1) div w + 1"
    using assms by (simp only: div_add_self2)
  then show ?thesis by (simp only: e)
qed

lemma chunks_Nil: "chunks w [] = []"
  by (cases w) (simp_all add: chunks_def)

lemma chunks_rec:
  assumes "0 < w" and "s \<noteq> []"
  shows "chunks w s = take w s # chunks w (drop w s)"
proof -
  let ?m = "(length (drop w s) + w - 1) div w"
  have n: "(length s + w - 1) div w = Suc ?m"
    using chunk_count_step [of w "length s"] assms by simp
  have upt: "[0..<Suc ?m] = 0 # map Suc [0..<?m]"
    by (simp add: upt_conv_Cons map_Suc_upt del: upt_Suc)
  have d: "drop (Suc i * w) s = drop (i * w) (drop w s)" for i
    by (simp add: add.commute)
  show ?thesis
    unfolding chunks_def n upt by (simp add: d del: upt_Suc mult_Suc)
qed

lemma wrap96_chunks: "wrap96 line = map (\<lambda>c. info (row96 c)) (chunks 96 line)"
proof (induction line rule: wrap96.induct)
  case (1 line)
  show ?case
  proof (cases "line = []")
    case True
    then show ?thesis by (simp add: wrap96.simps chunks_Nil)
  next
    case False
    then show ?thesis using 1 by (subst wrap96.simps) (simp add: chunks_rec)
  qed
qed

lemma wrap91_chunks: "wrap91 line = map (\<lambda>c. info (row91 c)) (chunks 91 line)"
proof (induction line rule: wrap91.induct)
  case (1 line)
  show ?case
  proof (cases "line = []")
    case True
    then show ?thesis by (simp add: wrap91.simps chunks_Nil)
  next
    case False
    then show ?thesis using 1 by (subst wrap91.simps) (simp add: chunks_rec)
  qed
qed

lemma concat_chunks: "0 < w \<Longrightarrow> concat (chunks w s) = s"
proof (induction "length s" arbitrary: s rule: less_induct)
  case less
  show ?case
  proof (cases "s = []")
    case True
    then show ?thesis by (simp add: chunks_Nil)
  next
    case False
    then have "length (drop w s) < length s" using less.prems by simp
    then have "concat (chunks w (drop w s)) = drop w s" using less by blast
    then show ?thesis using False less.prems by (simp add: chunks_rec)
  qed
qed

lemma length_chunks: "length (chunks w s) = (length s + w - 1) div w"
  by (simp add: chunks_def)

lemma chunk_sizes:
  assumes "0 < w" and "c \<in> set (chunks w s)"
  shows "c \<noteq> [] \<and> length c \<le> w"
proof -
  from assms(2) obtain i where i: "i < (length s + w - 1) div w" and c: "c = take w (drop (i * w) s)"
    by (auto simp: chunks_def)
  from i have "Suc i \<le> (length s + w - 1) div w" by simp
  then have "Suc i * w \<le> length s + w - 1"
    using assms(1) by (simp only: less_eq_div_iff_mult_less_eq)
  then have "i * w < length s" using assms(1) by simp
  then show ?thesis using c assms(1) by simp
qed

lemma item_row_count: "Suc ((length (drop 91 t) + 90) div 91) = max 1 ((length t + 90) div 91)"
proof (cases "length t \<le> 91")
  case True
  then have "(length t + 90) div 91 \<le> 1" by simp
  then show ?thesis using True by simp
next
  case False
  then have "length t + 90 = (length t - 91 + 90) + 91" by simp
  then have "(length t + 90) div 91 = Suc ((length t - 91 + 90) div 91)" by simp
  then show ?thesis by simp
qed

lemma create_fails_iff:
  "(\<exists>e. fst (create d self messages kw) = Inl e) \<longleftrightarrow> \<not> typed_call_returning (d, messages, kw)"
proof -
  have "(\<exists>r. fst (create d self messages kw) = Inr r) \<longleftrightarrow> typed_call_returning (d, messages, kw)"
    by (auto simp: create_returns_iff typed_call_returning_def split: sum.splits)
  then show ?thesis by (cases "fst (create d self messages kw)") auto
qed

lemma run_calls_append: "run_calls self (xs @ ys) = run_calls (run_calls self xs) ys"
  by (induction xs arbitrary: self) auto

lemma run_calls_count: "call_count (run_calls self cs) = call_count self + int (length cs)"
  by (induction cs arbitrary: self) (auto simp: create_call_count)

lemma create_ids:
  "map call_id (raw_responses (fst (snd (create d self messages kw)))) =
     map call_id (raw_responses self) @
     (if typed_call_returning (d, messages, kw) then [call_count self + 1] else [])"
proof (cases "fst (create d self messages kw)")
  case (Inl e)
  then have "\<not> typed_call_returning (d, messages, kw)" using create_fails_iff by blast
  then show ?thesis using Inl by (simp add: create_raw_responses)
next
  case (Inr r)
  then have "typed_call_returning (d, messages, kw)" using create_fails_iff [of d self messages kw] by simp
  then show ?thesis using Inr by (simp add: create_raw_responses)
qed

lemma run_calls_ids:
  "map call_id (raw_responses (run_calls self cs)) =
     map call_id (raw_responses self) @ ok_ids (call_count self) cs"
proof (induction cs arbitrary: self)
  case Nil
  show ?case by simp
next
  case (Cons c cs)
  obtain d messages kw where c: "c = (d, messages, kw)" by (cases c)
  show ?case by (simp add: c Cons.IH create_ids create_call_count)
qed

lemma ok_ids_bounds: "x \<in> set (ok_ids n cs) \<Longrightarrow> n < x \<and> x \<le> n + int (length cs)"
  by (induction cs arbitrary: n) (fastforce split: if_splits)+

lemma ok_ids_append: "ok_ids n (xs @ ys) = ok_ids n xs @ ok_ids (n + int (length xs)) ys"
  by (induction xs arbitrary: n) (auto simp: algebra_simps)

lemma length_ok_ids: "length (ok_ids n cs) \<le> length cs"
proof (induction cs arbitrary: n)
  case Nil
  show ?case by simp
next
  case (Cons c cs)
  show ?case using Cons [of "n + 1"] by simp
qed

lemma create_raise_result:
  assumes "well_typed_request kw" and "d messages kw = Inl e"
  shows "fst (create d self messages kw) = Inl e"
proof -
  obtain out1 where a: "run_log (log_request (call_count self + 1) messages kw) = (out1, None)"
    using assms(1) log_request_ok_iff [of "call_count self + 1" messages kw]
    by (cases "run_log (log_request (call_count self + 1) messages kw)") simp
  show ?thesis using a assms(2) by (simp add: create_def Let_def)
qed

lemma foldl_digits_zeros:
  "foldl (\<lambda>a c. 10 * a + (c - 48)) (0::nat) (replicate k 48) = 0"
  by (induction k) simp_all

lemma foldl_digits_dec: "foldl (\<lambda>a c. 10 * a + (c - 48)) (0::nat) (dec n) = n"
proof (induction n rule: dec.induct)
  case (1 n)
  show ?case
  proof (cases "n < 10")
    case True
    then show ?thesis by (simp add: dec_small)
  next
    case False
    then have "dec n = dec (n div 10) @ [48 + n mod 10]" by (subst dec.simps) simp
    then show ?thesis using 1 False by simp
  qed
qed

lemma zfill_dec_inj:
  assumes "zfill w (dec a) = zfill w (dec b)"
  shows "a = b"
proof -
  have v: "foldl (\<lambda>a c. 10 * a + (c - 48)) (0::nat) (zfill w (dec n)) = n" for n
    by (simp add: zfill_def foldl_digits_zeros foldl_digits_dec)
  have "a = foldl (\<lambda>a c. 10 * a + (c - 48)) (0::nat) (zfill w (dec a))" by (simp only: v)
  also have "\<dots> = foldl (\<lambda>a c. 10 * a + (c - 48)) (0::nat) (zfill w (dec b))" by (simp only: assms)
  also have "\<dots> = b" by (simp only: v)
  finally show ?thesis .
qed

lemma fmt_03d_inj:
  assumes "0 \<le> a" and "0 \<le> b" and "fmt_03d a = fmt_03d b"
  shows "a = b"
proof -
  have "zfill 3 (dec (nat a)) = zfill 3 (dec (nat b))" using assms by (simp add: fmt_03d_def)
  then have "nat a = nat b" by (rule zfill_dec_inj)
  then show ?thesis using assms(1,2) by simp
qed

lemma boxed_inj: "boxed s n = boxed s' n \<Longrightarrow> s = s'"
  by (simp add: boxed_def)

lemma call_line_inj:
  assumes "0 \<le> a" and "0 \<le> b" and "call_line a = call_line b"
  shows "a = b"
proof -
  from assms(3) have "lit ''Call #'' @ fmt_03d a @ lit '':'' = lit ''Call #'' @ fmt_03d b @ lit '':''"
    unfolding call_line_def by (rule boxed_inj)
  then have "fmt_03d a = fmt_03d b" by (simp only: same_append_eq append_same_eq)
  then show ?thesis using assms(1,2) by (rule fmt_03d_inj [rotated 2])
qed

lemma call_line_head: "\<exists>rest. call_line k = BOX_V # SPACE # 67 # rest"
  by (simp add: call_line_def boxed_def lit_def)

lemma set_sep_between: "set (sep_between es) \<subseteq> insert sep_frame (\<Union> (set ` set es))"
  by (induction es rule: sep_between.induct) auto

lemma call_line_not_frame:
  "call_line k \<noteq> top_frame" "call_line k \<noteq> mid_frame" "call_line k \<noteq> sep_frame"
  "call_line k \<noteq> bottom_frame"
proof -
  obtain rest where r: "call_line k = BOX_V # SPACE # 67 # rest" using call_line_head by blast
  show "call_line k \<noteq> top_frame" by (simp add: r top_frame_def NEWLINE_def BOX_V_def)
  show "call_line k \<noteq> mid_frame" by (simp add: r mid_frame_def BOX_ML_def BOX_V_def)
  show "call_line k \<noteq> sep_frame" by (simp add: r sep_frame_def BOX_SL_def BOX_V_def)
  show "call_line k \<noteq> bottom_frame" by (simp add: r bottom_frame_def BOX_BL_def BOX_V_def)
qed

lemma call_line_not_title:
  "call_line k \<noteq> boxed (lit ''VLLM RESPONSE SUMMARY'') 75" "call_line k \<noteq> total_line n"
proof -
  obtain rest where r: "call_line k = BOX_V # SPACE # 67 # rest" using call_line_head by blast
  show "call_line k \<noteq> boxed (lit ''VLLM RESPONSE SUMMARY'') 75"
    by (simp add: r boxed_def lit_def)
  show "call_line k \<noteq> total_line n"
    by (simp add: r total_line_def lit_def)
qed

lemma call_line_in_entry:
  assumes "0 \<le> k" and "0 \<le> call_id r" and "call_line k \<in> set (summary_entry r)"
  shows "k = call_id r"
proof -
  obtain rest where r: "call_line k = BOX_V # SPACE # 67 # rest" using call_line_head by blast
  have a: "call_line k \<noteq> BOX_V # lit ''   Has content: '' @ x" for x
    by (simp add: r lit_def)
  have b: "call_line k \<noteq> BOX_V # lit ''   Has thought: '' @ x" for x
    by (simp add: r lit_def)
  have "set (summary_entry r) =
      {call_line (call_id r),
       BOX_V # lit ''   Has content: '' @ (ljust 84 (py_str (PBool (has_content r))) @ [SPACE, BOX_V]),
       BOX_V # lit ''   Has thought: '' @ (ljust 84 (py_str (PBool (has_thought r))) @ [SPACE, BOX_V])}"
    by (simp only: summary_entry_def list.set)
  then have "call_line k = call_line (call_id r)" using assms(3) a b by blast
  then show ?thesis using assms(1,2) by (rule call_line_inj [rotated 2])
qed

lemma call_line_in_summary:
  assumes "0 \<le> k" and "\<forall>r \<in> set (raw_responses self). 0 \<le> call_id r"
    and "call_line k \<in> set (fst (get_response_summary self))"
  shows "k \<in> set (map call_id (raw_responses self))"
proof -
  have "set (fst (get_response_summary self)) =
      {top_frame, boxed (lit ''VLLM RESPONSE SUMMARY'') 75, mid_frame,
       total_line (call_count self), sep_frame, bottom_frame}
      \<union> set (sep_between (map summary_entry (raw_responses self)))"
    by (auto simp: get_response_summary_def summary_loop_sep_between)
  then have "call_line k \<in> set (sep_between (map summary_entry (raw_responses self)))"
    using assms(3) call_line_not_frame [of k] call_line_not_title [of k] by blast
  then obtain r where r: "r \<in> set (raw_responses self)" "call_line k \<in> set (summary_entry r)"
    using set_sep_between [of "map summary_entry (raw_responses self)"] call_line_not_frame(3) [of k]
    by auto
  then have "k = call_id r" using call_line_in_entry assms(1,2) by blast
  then show ?thesis using r(1) by auto
qed

lemma finish_section_for_strings:
  assumes "content r = Some PNone" and "thought r = Some PNone"
    and "usage r = Some (UsageObj u)" and "well_typed_usage u"
    and "finish_reason r = Some (PStr s)"
  shows "\<exists>usage_lines.
     run_log (usage_block u) = (usage_lines, None) \<and>
     run_log (log_response cid r) =
       ([top_frame,
         boxed (lit ''vLLM API CALL #'' @ fmt_03d cid @ lit '' - RESPONSE (CreateResult)'') 52,
         mid_frame]
        @ usage_lines
        @ [sep_frame, BOX_V # lit '' Finish reason: '' @ ljust 82 s @ [SPACE, BOX_V], bottom_frame],
        None)"
proof -
  obtain usage_lines e where u: "run_log (usage_block u) = (usage_lines, e)" by force
  have "e = None" using run_log_ok_iff [of "usage_block u"] u assms(4) by simp
  then show ?thesis
    using u assms(1,2,3,5)
    by (simp add: log_response_def finish_block_def info_def fstr_def run_log_append_ok)
qed

lemma call_returns_iff: "call_returns c = typed_call_returning c"
proof -
  obtain d messages kw where c: "c = (d, messages, kw)" by (cases c)
  show ?thesis
  proof (cases "fst (create d new_client messages kw)")
    case (Inl e)
    then have "\<not> typed_call_returning (d, messages, kw)" using create_fails_iff by blast
    then show ?thesis using Inl by (simp add: c call_returns_def)
  next
    case (Inr r)
    then have "typed_call_returning (d, messages, kw)"
      using create_fails_iff [of d new_client messages kw] by simp
    then show ?thesis using Inr by (simp add: c call_returns_def)
  qed
qed

lemma create_returns_any_client:
  "(\<exists>r. fst (create d self messages kw) = Inr r) \<longleftrightarrow> call_returns (d, messages, kw)"
  using create_fails_iff [of d self messages kw]
  by (cases "fst (create d self messages kw)") (simp_all add: call_returns_iff)

lemma ok_ids_filter:
  "ok_ids n cs =
     map (\<lambda>i. n + int i + 1) (filter (\<lambda>i. call_returns (cs ! i)) [0..<length cs])"
proof (induction cs arbitrary: n)
  case Nil
  show ?case by simp
next
  case (Cons c cs)
  have upt: "[0..<length (c # cs)] = 0 # map Suc [0..<length cs]"
    by (simp add: upt_conv_Cons map_Suc_upt del: upt_Suc)
  have flt: "filter (\<lambda>i. call_returns ((c # cs) ! i)) (map Suc [0..<length cs]) =
      map Suc (filter (\<lambda>i. call_returns (cs ! i)) [0..<length cs])"
    by (simp add: filter_map o_def)
  show ?case
    unfolding upt
    by (simp only: ok_ids.simps Cons.IH filter.simps flt nth_Cons_0 call_returns_iff [symmetric])
       (simp add: o_def algebra_simps)
qed

lemma entry_in_sep_between: "e \<in> set es \<Longrightarrow> set e \<subseteq> set (sep_between es)"
  by (induction es rule: sep_between.induct) auto

lemma call_lines_in_summary:
  "r \<in> set (raw_responses self) \<Longrightarrow> call_line (call_id r) \<in> set (fst (get_response_summary self))"
proof -
  assume r: "r \<in> set (raw_responses self)"
  have "call_line (call_id r) \<in> set (summary_entry r)" by (simp add: summary_entry_def)
  moreover have "set (summary_entry r) \<subseteq> set (sep_between (map summary_entry (raw_responses self)))"
    using r by (intro entry_in_sep_between) simp
  ultimately show ?thesis
    by (auto simp: get_response_summary_def summary_loop_sep_between)
qed

lemma typed_calls_counter_and_ids:
  assumes "list_all typed_call_returning calls"
  shows "call_count (run_calls new_client calls) = int (length calls) \<and>
         length (raw_responses (run_calls new_client calls)) = length calls \<and>
         map call_id (raw_responses (run_calls new_client calls)) = map int [1..<Suc (length calls)] \<and>
         sorted_wrt (<) (map call_id (raw_responses (run_calls new_client calls)))"
proof -
  let ?h = "raw_responses (run_calls new_client calls)"
  have a: "call_count (run_calls new_client calls) = int (length calls)"
    and b: "map call_id ?h = map int [1..<Suc (length calls)]"
    using run_calls_typed [OF assms, of new_client] by (simp_all add: new_client_def)
  have "length (map call_id ?h) = length calls" by (simp only: b length_map length_upt)
  then have c: "length ?h = length calls" by simp
  have d: "sorted_wrt (<) (map call_id ?h)"
    by (simp only: b) (simp add: sorted_wrt_map del: upt_Suc)
  show ?thesis using a b c d by blast
qed

lemma create_result_is_delegates:
  "(fst (create d self messages kw) = Inr r' \<longrightarrow> d messages kw = Inr r') \<and>
   (well_typed_request kw \<and> d messages kw = Inr r \<and> well_typed_response r \<longrightarrow>
      fst (create d self messages kw) = Inr r \<and>
      response (last (raw_responses (fst (snd (create d self messages kw))))) = r)"
proof (intro conjI impI)
  assume "fst (create d self messages kw) = Inr r'"
  then show "d messages kw = Inr r'" by (simp add: create_returns_iff)
next
  assume "well_typed_request kw \<and> d messages kw = Inr r \<and> well_typed_response r"
  then show a: "fst (create d self messages kw) = Inr r" by (simp add: create_returns_iff)
  show "response (last (raw_responses (fst (snd (create d self messages kw))))) = r"
    by (simp add: create_raw_responses a)
qed

section \<open>The claims\<close>

text \<open>
  Claim C1, at an input where it fails. The delegate is reached and returns normally a
  response whose finish reason is \<^verbatim>\<open>None\<close>; formatting it with \<^verbatim>\<open>:<82s\<close> raises before
  the record is appended. After this one call the counter is 1 and the history is
  empty; when a call with the example response follows, the counter is 2 and the only
  record has the identifier 2.
\<close>

theorem history_misses_returning_delegate:
  "none_finish_delegate [] plain_kwargs = Inr none_finish_response \<and>
   delegate_reached new_client [] plain_kwargs \<and>
   call_count (run_calls new_client [(none_finish_delegate, [], plain_kwargs)]) = 1 \<and>
   raw_responses (run_calls new_client [(none_finish_delegate, [], plain_kwargs)]) = [] \<and>
   call_count (run_calls new_client
     [(none_finish_delegate, [], plain_kwargs), (hello_delegate, [], plain_kwargs)]) = 2 \<and>
   map call_id (raw_responses (run_calls new_client
     [(none_finish_delegate, [], plain_kwargs), (hello_delegate, [], plain_kwargs)])) = [2]"
proof -
  have bad: "\<not> typed_call_returning (none_finish_delegate, [], plain_kwargs)"
    by (simp add: typed_call_returning_def none_finish_delegate_def none_finish_response_def
        well_typed_response_def)
  have good: "typed_call_returning (hello_delegate, [], plain_kwargs)"
    by (simp add: typed_call_returning_def hello_delegate_def typed_plain typed_hello)
  have a: "none_finish_delegate [] plain_kwargs = Inr none_finish_response"
    by (simp add: none_finish_delegate_def)
  have b: "delegate_reached new_client [] plain_kwargs"
    by (simp add: delegate_reached_iff typed_plain)
  have c: "call_count (run_calls new_client [(none_finish_delegate, [], plain_kwargs)]) = 1"
    by (simp add: create_call_count new_client_def)
  have "map call_id (raw_responses (run_calls new_client [(none_finish_delegate, [], plain_kwargs)])) = []"
    using bad by (simp add: create_ids new_client_def)
  then have d: "raw_responses (run_calls new_client [(none_finish_delegate, [], plain_kwargs)]) = []"
    by simp
  have e: "call_count (run_calls new_client
     [(none_finish_delegate, [], plain_kwargs), (hello_delegate, [], plain_kwargs)]) = 2"
    by (simp add: create_call_count new_client_def)
  have f: "map call_id (raw_responses (run_calls new_client
     [(none_finish_delegate, [], plain_kwargs), (hello_delegate, [], plain_kwargs)])) = [2]"
    using bad good by (simp add: create_ids create_call_count new_client_def)
  show ?thesis using a b c d e f by blast
qed

text \<open>
  Claim C3. If the delegate is reached (the request block has been logged) and raises,
  the interceptor lets that very exception leave the call, appends no record (the
  history is the one before the call), and the counter has been incremented.
\<close>

theorem create_delegate_raises:
  assumes "delegate_reached self messages kw" and "d messages kw = Inl e"
  shows "fst (create d self messages kw) = Inl e \<and>
         raw_responses (fst (snd (create d self messages kw))) = raw_responses self \<and>
         call_count (fst (snd (create d self messages kw))) = call_count self + 1"
proof -
  obtain out1 where a: "run_log (log_request (call_count self + 1) messages kw) = (out1, None)"
    using assms(1) by (cases "run_log (log_request (call_count self + 1) messages kw)")
      (simp add: delegate_reached_def)
  show ?thesis using a assms(2) by (simp add: create_def Let_def)
qed

theorem create_delegate_raises_witness:
  "delegate_reached new_client [] plain_kwargs \<and>
   failing_delegate [] plain_kwargs = Inl (OtherError (lit ''APIConnectionError'')) \<and>
   fst (create failing_delegate new_client [] plain_kwargs) = Inl (OtherError (lit ''APIConnectionError'')) \<and>
   raw_responses (fst (snd (create failing_delegate new_client [] plain_kwargs))) = [] \<and>
   call_count (fst (snd (create failing_delegate new_client [] plain_kwargs))) = 1"
proof -
  have h1: "delegate_reached new_client [] plain_kwargs"
    by (simp add: delegate_reached_iff typed_plain)
  have h2: "failing_delegate [] plain_kwargs = Inl (OtherError (lit ''APIConnectionError''))"
    by (simp add: failing_delegate_def)
  show ?thesis using h1 h2 create_delegate_raises [where d = failing_delegate, OF h1 h2] by (simp add: new_client_def)
qed

text \<open>
  Claim C4, at an input where it fails. The delegate is reached and returns normally a
  response whose finish reason is \<^verbatim>\<open>None\<close>; the interceptor does not return that
  response: the TypeError of \<^verbatim>\<open>:<82s\<close> leaves the call in its place.
\<close>

theorem create_raises_after_delegate_returned:
  "none_finish_delegate [] plain_kwargs = Inr none_finish_response \<and>
   delegate_reached new_client [] plain_kwargs \<and>
   fst (create none_finish_delegate new_client [] plain_kwargs) = Inl TypeError"
proof -
  have a: "none_finish_delegate [] plain_kwargs = Inr none_finish_response"
    by (simp add: none_finish_delegate_def)
  have b: "delegate_reached new_client [] plain_kwargs"
    by (simp add: delegate_reached_iff typed_plain)
  have c: "fst (create none_finish_delegate new_client [] plain_kwargs) = Inl TypeError"
    by (simp add: none_finish_delegate_def
        create_def Let_def new_client_def plain_kwargs_def
        log_request_def log_response_def none_finish_response_def info_def fstr_def
        usage_block_def finish_block_def token_line_def)
  show ?thesis using a b c by blast
qed

text \<open>
  Claim C9. After a call that returns, the record appended has \<open>has_content\<close> true exactly
  when the response has a content attribute with a truthy value, and \<open>has_thought\<close> true
  exactly when it has a thought attribute with a truthy value; an empty string or an
  empty list is falsy, as an absent attribute is.
\<close>

theorem create_record_flags:
  assumes "create d self messages kw = (Inr r, self', out)"
  shows "raw_responses self' = raw_responses self @
           [\<lparr>call_id = call_count self + 1, response = r,
             has_content = (case content r of None \<Rightarrow> False | Some v \<Rightarrow> truthy v),
             has_thought = (case thought r of None \<Rightarrow> False | Some v \<Rightarrow> truthy v)\<rparr>] \<and>
         (has_content (last (raw_responses self')) \<longleftrightarrow> (\<exists>v. content r = Some v \<and> truthy v)) \<and>
         (has_thought (last (raw_responses self')) \<longleftrightarrow> (\<exists>v. thought r = Some v \<and> truthy v))"
proof -
  have a: "fst (create d self messages kw) = Inr r" and b: "fst (snd (create d self messages kw)) = self'"
    using assms by simp_all
  have "raw_responses self' = raw_responses self @
           [\<lparr>call_id = call_count self + 1, response = r,
             has_content = present_truthy (content r),
             has_thought = present_truthy (thought r)\<rparr>]"
    using create_raw_responses [of d self messages kw] a b by simp
  then show ?thesis by (auto simp: present_truthy_def split: option.splits)
qed

theorem create_record_flags_witness:
  "create empty_content_delegate new_client [] plain_kwargs =
     (Inr empty_content_response,
      fst (snd (create empty_content_delegate new_client [] plain_kwargs)),
      snd (snd (create empty_content_delegate new_client [] plain_kwargs))) \<and>
   \<not> has_content (last (raw_responses (fst (snd (create empty_content_delegate new_client [] plain_kwargs))))) \<and>
   \<not> has_thought (last (raw_responses (fst (snd (create empty_content_delegate new_client [] plain_kwargs)))))"
proof -
  have "fst (create empty_content_delegate new_client [] plain_kwargs) = Inr empty_content_response"
    by (simp add: create_returns_iff typed_plain empty_content_delegate_def
        empty_content_response_def well_typed_response_def)
  then have h: "create empty_content_delegate new_client [] plain_kwargs =
     (Inr empty_content_response,
      fst (snd (create empty_content_delegate new_client [] plain_kwargs)),
      snd (snd (create empty_content_delegate new_client [] plain_kwargs)))"
    by (metis prod.collapse)
  show ?thesis
    using h create_record_flags [OF h] by (simp add: empty_content_response_def)
qed

text \<open>
  Claim C6. The summarizer changes neither the counter nor the history, so a second run
  right after the first writes the same report (the same total and the same flags). The
  report is the title block, the line of the total, a separator, then the entries of the
  records in order with one separator between two consecutive entries and none after the
  last, then the closing frame.
\<close>

theorem summary_idempotent:
  "fst (get_response_summary (snd (get_response_summary self))) = fst (get_response_summary self) \<and>
   snd (get_response_summary self) = self \<and>
   snd (get_response_summary (snd (get_response_summary self))) = self \<and>
   fst (get_response_summary self) =
     [top_frame, boxed (lit ''VLLM RESPONSE SUMMARY'') 75, mid_frame,
      total_line (call_count self), sep_frame]
     @ sep_between (map summary_entry (raw_responses self))
     @ [bottom_frame]"
  by (simp add: get_response_summary_def summary_loop_sep_between)

text \<open>
  Claim C7. Without \<^verbatim>\<open>--system-prompt\<close> the task of the driver has the fixed chemistry
  persona as its system prompt, and without \<^verbatim>\<open>--user-prompt\<close> the fixed SMILES
  molecule-generation string with the price ceiling of $20 as its user prompt, each
  character for character; a value given on the command line is used as it is.
\<close>

theorem driver_default_prompts:
  "system_prompt (main_task \<lparr>arg_system_prompt = None, arg_user_prompt = u, arg_server_urls = urls\<rparr>) =
     ''You are a world-class chemist. Your task is to generate unique molecules based on the lead molecule provided by the user. The generated molecules should be chemically valid and diverse, exploring different chemical spaces while maintaining some structural similarity to the lead molecule. Provide the final answer in a clear and concise manner.'' \<and>
   user_prompt (main_task \<lparr>arg_system_prompt = s, arg_user_prompt = None, arg_server_urls = urls\<rparr>) =
     ''Generate a unique molecule based on the lead molecule provided. The lead molecule is CCO. Use SMILES format for the molecules. Ensure the generated molecule is chemically valid and unique, using the tools provided. Check the price of the generated molecule using the molecule pricing tool, and get a cheap molecule. Once you find a molecule that is unique (not known) and reasonably cheap (price <= $20), provide your final answer with the SMILES string and price. Do not continue searching indefinitely.'' \<and>
   system_prompt (main_task \<lparr>arg_system_prompt = Some sp, arg_user_prompt = u, arg_server_urls = urls\<rparr>) = sp \<and>
   user_prompt (main_task \<lparr>arg_system_prompt = s, arg_user_prompt = Some up, arg_server_urls = urls\<rparr>) = up"
  by (simp add: main_task_def ChargeMultiServerTask_def DEFAULT_SYSTEM_PROMPT_def
      DEFAULT_USER_PROMPT_def Let_def)

text \<open>
  Claim C8, at two inputs where it fails. A delegate that would return normally is never
  called when an extra option is the int 20: formatting it with \<^verbatim>\<open>:<86s\<close> raises ValueError
  after the counter went to 1 and six messages were written. A delegate that returns a
  response whose finish reason is \<^verbatim>\<open>None\<close> has its result replaced by the TypeError of
  \<^verbatim>\<open>:<82s\<close>, and no record is stored.
\<close>

theorem logging_raises_on_untyped_values:
  "hello_delegate [] topk_kwargs = Inr hello_response \<and>
   create hello_delegate new_client [] topk_kwargs =
     (Inl ValueError, \<lparr>raw_responses = [], call_count = 1\<rparr>,
      [top_frame, boxed (lit ''vLLM API CALL #'' @ fmt_03d 1 @ lit '' - REQUEST'') 70, mid_frame,
       BOX_V # lit '' Model: '' @ ljust 91 (lit ''N/A'') @ [SPACE, BOX_V],
       boxed (lit ''Messages: '' @ dec 0 @ lit '' message(s)'') 73,
       boxed (lit ''Extra body parameters:'') 75]) \<and>
   none_finish_delegate [] plain_kwargs = Inr none_finish_response \<and>
   fst (create none_finish_delegate new_client [] plain_kwargs) = Inl TypeError \<and>
   raw_responses (fst (snd (create none_finish_delegate new_client [] plain_kwargs))) = []"
  by (simp add: hello_delegate_def none_finish_delegate_def
      create_def Let_def new_client_def topk_kwargs_def plain_kwargs_def
      log_request_def log_response_def none_finish_response_def info_def fstr_def
      usage_block_def finish_block_def token_line_def)

text \<open>
  Claim C5, at an input where it fails: content, thought and finish reason are \<^verbatim>\<open>None\<close>
  and usage is present. No content or thought section is written and the usage section
  is, but of the finish-reason section only the separator: formatting \<^verbatim>\<open>None\<close> with
  \<^verbatim>\<open>:<82s\<close> raises TypeError, and neither the finish-reason line nor the closing frame
  follows.
\<close>

theorem finish_reason_none_not_logged:
  "run_log (log_response 1 none_finish_response) =
     ([top_frame,
       boxed (lit ''vLLM API CALL #'' @ fmt_03d 1 @ lit '' - RESPONSE (CreateResult)'') 52,
       mid_frame,
       sep_frame,
       boxed (lit ''USAGE STATISTICS:'') 80,
       BOX_V # lit ''   Prompt tokens: '' @ ljust 82 (str_int 10) @ [SPACE, BOX_V],
       BOX_V # lit ''   Completion tokens: '' @ ljust 78 (str_int 5) @ [SPACE, BOX_V],
       sep_frame],
      Some TypeError)"
  by (simp add: log_response_def none_finish_response_def info_def fstr_def
      usage_block_def finish_block_def token_line_def)

text \<open>
  Claim C2, as amended. Scalar content and the thought are split on explicit newlines and
  every resulting line of length L is written on exactly \<open>ceil (L / 96)\<close> rows, so an empty
  line is written on no row. The string of a list item is not split on newlines: with
  length L it is written on \<open>max 1 (ceil (L / 91))\<close> rows, the first one carrying its
  index. Every row is one chunk of the line padded with spaces to the width inside the
  frame, and the chunks concatenated are the line (the item's string).
\<close>

theorem wrapping_rows:
  "content_block (PStr s) =
     [info (boxed (lit ''CONTENT (Final Answer Channel):'') 65), info sep_frame] @ text_rows s \<and>
   thought_block v =
     [info sep_frame, info (boxed (lit ''THOUGHT (Reasoning Channel):'') 68), info sep_frame]
     @ text_rows (py_str v) \<and>
   content_block (PList items) =
     [info (boxed (lit ''CONTENT (Final Answer Channel):'') 65), info sep_frame]
     @ concat (map (\<lambda>(idx, item). item_rows idx (str_of item)) (enumerate 0 items)) \<and>
   text_rows s = concat (map wrap96 (split_nl s)) \<and>
   wrap96 line = map (\<lambda>c. info ([BOX_V, SPACE] @ ljust 96 c @ [SPACE, BOX_V])) (chunks 96 line) \<and>
   length (wrap96 line) = (length line + 95) div 96 \<and>
   concat (chunks 96 line) = line \<and>
   list_all (\<lambda>c. c \<noteq> [] \<and> length (ljust 96 c) = 96) (chunks 96 line) \<and>
   list_all (\<lambda>c. c \<noteq> [] \<and> length (ljust 91 c) = 91) (chunks 91 (drop 91 t)) \<and>
   length (ljust 91 (take 91 t)) = 91 \<and>
   item_rows idx t =
     info (BOX_V # lit '' ['' @ dec idx @ lit ''] '' @ ljust 91 (take 91 t) @ [SPACE, BOX_V])
     # map (\<lambda>c. info (BOX_V # lit ''     '' @ ljust 91 c @ [SPACE, BOX_V])) (chunks 91 (drop 91 t)) \<and>
   length (item_rows idx t) = max 1 ((length t + 90) div 91) \<and>
   take 91 t @ concat (chunks 91 (drop 91 t)) = t"
proof -
  have a: "length (wrap96 line) = (length line + 95) div 96"
    by (simp add: wrap96_chunks length_chunks)
  have b: "length (item_rows idx t) = max 1 ((length t + 90) div 91)"
    using item_row_count [of t] by (simp add: item_rows_def wrap91_chunks length_chunks)
  have c: "wrap96 line = map (\<lambda>c. info ([BOX_V, SPACE] @ ljust 96 c @ [SPACE, BOX_V])) (chunks 96 line)"
    by (simp add: wrap96_chunks row96_def)
  have d: "item_rows idx t =
     info (BOX_V # lit '' ['' @ dec idx @ lit ''] '' @ ljust 91 (take 91 t) @ [SPACE, BOX_V])
     # map (\<lambda>c. info (BOX_V # lit ''     '' @ ljust 91 c @ [SPACE, BOX_V])) (chunks 91 (drop 91 t))"
    by (simp add: item_rows_def wrap91_chunks row91_def first_row91_def)
  have e: "list_all (\<lambda>c. c \<noteq> [] \<and> length (ljust w c) = w) (chunks w x)" if "0 < w" for w x
    using chunk_sizes [OF that, of _ x] by (auto simp: list_all_iff ljust_def)
  have f: "length (ljust 91 (take 91 t)) = 91" by (simp add: ljust_def)
  show ?thesis
    using a b c d e [of 96 line] e [of 91 "drop 91 t"] f
    by (simp add: content_block_def thought_block_def text_rows_def concat_chunks)
qed

text \<open>
  The claim as stated fails on an empty line, for which it asks one row: the loop
  \<^verbatim>\<open>while line:\<close> writes none, so the text \<^verbatim>\<open>"a\n\nb"\<close> takes two rows and not three. It
  also fails on a list item with a newline, which is written on one row, unsplit.
\<close>

theorem wrapping_rows_counterexample:
  "length (wrap96 []) \<noteq> spec_row_count 96 (length ([] :: pystr)) \<and>
   split_nl (lit ''a'' @ [NEWLINE, NEWLINE] @ lit ''b'') = [lit ''a'', [], lit ''b''] \<and>
   length (text_rows (lit ''a'' @ [NEWLINE, NEWLINE] @ lit ''b'')) \<noteq>
     sum_list (map (\<lambda>l. spec_row_count 96 (length l)) (split_nl (lit ''a'' @ [NEWLINE, NEWLINE] @ lit ''b''))) \<and>
   length (item_rows 0 (lit ''a'' @ [NEWLINE] @ lit ''b'')) \<noteq>
     sum_list (map (\<lambda>l. spec_row_count 91 (length l)) (split_nl (lit ''a'' @ [NEWLINE] @ lit ''b'')))"
  by code_simp

text \<open>
  Claim C10. The counter is incremented before the delegate is awaited, so a call that
  fails (the delegate raises, or a log statement does) has taken its identifier. Let the
  call after the calls \<open>pre\<close> fail and the calls \<open>post\<close> follow. The failed call took
  the identifier \<open>length pre + 1\<close>. At the end the counter counts every call and exceeds
  the length of the history. The history holds, in order, exactly the identifiers
  \<open>i + 1\<close> of the calls at the positions \<open>i\<close> that returned: the identifier of the
  failed call is in no record, and the \<open>j\<close>-th later call, when it returns, is recorded
  with the later identifier \<open>length pre + 2 + j\<close>, which leaves the gap. The summary
  reports the count of all calls, the failed one included; the entry line of every
  record is one of its lines and the entry line of the failed call is not.
\<close>

theorem failed_call_leaves_gap:
  assumes "fst (create d (run_calls new_client pre) messages kw) = Inl e"
  shows "call_count (fst (snd (create d (run_calls new_client pre) messages kw))) = int (length pre) + 1 \<and>
     (let final = run_calls new_client (pre @ (d, messages, kw) # post) in
        call_count final = int (length pre) + 1 + int (length post) \<and>
        int (length (raw_responses final)) < call_count final \<and>
        int (length pre) + 1 \<notin> set (map call_id (raw_responses final)) \<and>
        set (map call_id (raw_responses final)) \<subseteq> {1..call_count final} - {int (length pre) + 1} \<and>
        call_line (int (length pre) + 1) \<notin> set (fst (get_response_summary final)) \<and>
        fst (get_response_summary final) =
          [top_frame, boxed (lit ''VLLM RESPONSE SUMMARY'') 75, mid_frame,
           total_line (int (length (pre @ (d, messages, kw) # post))), sep_frame]
          @ sep_between (map summary_entry (raw_responses final))
          @ [bottom_frame] \<and>
        \<not> call_returns (d, messages, kw) \<and>
        map call_id (raw_responses final) =
          map (\<lambda>i. int i + 1)
            (filter (\<lambda>i. call_returns ((pre @ (d, messages, kw) # post) ! i))
               [0..<length (pre @ (d, messages, kw) # post)]) \<and>
        (\<forall>j<length post. call_returns (post ! j) \<longrightarrow>
           int (length pre) + 2 + int j \<in> set (map call_id (raw_responses final))) \<and>
        (\<forall>r\<in>set (raw_responses final).
           call_line (call_id r) \<in> set (fst (get_response_summary final))) \<and>
        (\<forall>d' self' messages' kw'.
           (\<exists>r. fst (create d' self' messages' kw') = Inr r) = call_returns (d', messages', kw')))"
proof -
  let ?c = "(d, messages, kw)"
  let ?final = "run_calls new_client (pre @ ?c # post)"
  have bad: "\<not> typed_call_returning ?c" using assms create_fails_iff by blast
  have cnt0: "call_count (fst (snd (create d (run_calls new_client pre) messages kw))) = int (length pre) + 1"
    by (simp add: create_call_count run_calls_count new_client_def)
  have cnt: "call_count ?final = int (length pre) + 1 + int (length post)"
    by (simp add: run_calls_count new_client_def)
  have ids: "map call_id (raw_responses ?final) =
      ok_ids 0 pre @ ok_ids (int (length pre) + 1) post"
    using bad by (simp add: run_calls_ids new_client_def ok_ids_append)
  have len: "length (map call_id (raw_responses ?final)) \<le> length pre + length post"
    unfolding ids using length_ok_ids [of 0 pre] length_ok_ids [of "int (length pre) + 1" post]
    by simp
  have lt: "int (length (raw_responses ?final)) < call_count ?final"
    using len cnt by simp
  have sub: "set (map call_id (raw_responses ?final)) \<subseteq> {1..call_count ?final} - {int (length pre) + 1}"
    unfolding ids cnt using ok_ids_bounds [of _ 0 pre] ok_ids_bounds [of _ "int (length pre) + 1" post]
    by fastforce
  then have notin: "int (length pre) + 1 \<notin> set (map call_id (raw_responses ?final))" by blast
  have summ: "fst (get_response_summary ?final) =
          [top_frame, boxed (lit ''VLLM RESPONSE SUMMARY'') 75, mid_frame,
           total_line (int (length (pre @ ?c # post))), sep_frame]
          @ sep_between (map summary_entry (raw_responses ?final))
          @ [bottom_frame]"
  proof -
    have "int (length (pre @ ?c # post)) = call_count ?final" using cnt by simp
    then show ?thesis by (simp only: get_response_summary_def summary_loop_sep_between fst_conv)
  qed
  have nonneg: "\<forall>r \<in> set (raw_responses ?final). 0 \<le> call_id r" using sub by auto
  have noline: "call_line (int (length pre) + 1) \<notin> set (fst (get_response_summary ?final))"
    using call_line_in_summary [of "int (length pre) + 1" ?final] nonneg notin by auto
  have nr: "\<not> call_returns ?c" using bad by (simp add: call_returns_iff)
  have exact: "map call_id (raw_responses ?final) =
      map (\<lambda>i. int i + 1)
        (filter (\<lambda>i. call_returns ((pre @ ?c # post) ! i)) [0..<length (pre @ ?c # post)])"
    using ok_ids_filter [of 0 "pre @ ?c # post"] by (simp add: run_calls_ids new_client_def)
  have later: "\<forall>j<length post. call_returns (post ! j) \<longrightarrow>
      int (length pre) + 2 + int j \<in> set (map call_id (raw_responses ?final))"
  proof (intro allI impI)
    fix j assume j: "j < length post" and r: "call_returns (post ! j)"
    have "int (length pre) + 1 + int j + 1 \<in>
        (\<lambda>i. int (length pre) + 1 + int i + 1) ` {i. i < length post \<and> call_returns (post ! i)}"
      using j r by blast
    then have "int (length pre) + 1 + int j + 1 \<in> set (ok_ids (int (length pre) + 1) post)"
      by (simp add: ok_ids_filter)
    then show "int (length pre) + 2 + int j \<in> set (map call_id (raw_responses ?final))"
      unfolding ids by (simp add: algebra_simps)
  qed
  have lines: "\<forall>r\<in>set (raw_responses ?final).
      call_line (call_id r) \<in> set (fst (get_response_summary ?final))"
    using call_lines_in_summary by blast
  have anywhere: "\<forall>d' self' messages' kw'.
      (\<exists>r. fst (create d' self' messages' kw') = Inr r) = call_returns (d', messages', kw')"
    using create_returns_any_client by blast
  show ?thesis unfolding Let_def
    by (intro conjI) (fact cnt0 cnt lt notin sub noline summ nr exact later lines anywhere)+
qed

theorem failed_call_leaves_gap_witness:
  "fst (create failing_delegate (run_calls new_client [(hello_delegate, [], plain_kwargs)]) [] plain_kwargs) =
     Inl (OtherError (lit ''APIConnectionError'')) \<and>
   call_count (run_calls new_client
     [(hello_delegate, [], plain_kwargs), (failing_delegate, [], plain_kwargs),
      (hello_delegate, [], plain_kwargs)]) = 3 \<and>
   int (length (raw_responses (run_calls new_client
     [(hello_delegate, [], plain_kwargs), (failing_delegate, [], plain_kwargs),
      (hello_delegate, [], plain_kwargs)]))) < 3 \<and>
   2 \<notin> set (map call_id (raw_responses (run_calls new_client
     [(hello_delegate, [], plain_kwargs), (failing_delegate, [], plain_kwargs),
      (hello_delegate, [], plain_kwargs)]))) \<and>
   call_line 2 \<notin> set (fst (get_response_summary (run_calls new_client
     [(hello_delegate, [], plain_kwargs), (failing_delegate, [], plain_kwargs),
      (hello_delegate, [], plain_kwargs)]))) \<and>
   map call_id (raw_responses (run_calls new_client
     [(hello_delegate, [], plain_kwargs), (failing_delegate, [], plain_kwargs),
      (hello_delegate, [], plain_kwargs)])) = [1, 3] \<and>
   call_line 3 \<in> set (fst (get_response_summary (run_calls new_client
     [(hello_delegate, [], plain_kwargs), (failing_delegate, [], plain_kwargs),
      (hello_delegate, [], plain_kwargs)])))"
proof -
  have h: "fst (create failing_delegate (run_calls new_client [(hello_delegate, [], plain_kwargs)]) [] plain_kwargs) =
     Inl (OtherError (lit ''APIConnectionError''))"
    by (rule create_raise_result) (simp_all add: typed_plain failing_delegate_def)
  note t = failed_call_leaves_gap [OF h, of "[(hello_delegate, [], plain_kwargs)]", unfolded Let_def,
      THEN conjunct2]
  let ?final = "run_calls new_client
     [(hello_delegate, [], plain_kwargs), (failing_delegate, [], plain_kwargs),
      (hello_delegate, [], plain_kwargs)]"
  have c1: "call_count ?final = 3"
    using t [THEN conjunct1] by simp
  have c2: "int (length (raw_responses ?final)) < 3"
    using t [THEN conjunct2, THEN conjunct1] c1 by simp
  have c3: "2 \<notin> set (map call_id (raw_responses ?final))"
    using t [THEN conjunct2, THEN conjunct2, THEN conjunct1] by simp
  have c5: "call_line 2 \<notin> set (fst (get_response_summary ?final))"
    using t [THEN conjunct2, THEN conjunct2, THEN conjunct2, THEN conjunct2, THEN conjunct1]
    by simp
  have cr_h: "call_returns (hello_delegate, [], plain_kwargs)"
    by (simp add: call_returns_iff typed_call_returning_def hello_delegate_def typed_plain typed_hello)
  have cr_f: "\<not> call_returns (failing_delegate, [], plain_kwargs)"
    by (simp add: call_returns_iff typed_call_returning_def failing_delegate_def)
  have c7: "map call_id (raw_responses ?final) = [1, 3]"
    using t [THEN conjunct2, THEN conjunct2, THEN conjunct2, THEN conjunct2, THEN conjunct2,
        THEN conjunct2, THEN conjunct2, THEN conjunct1] cr_h cr_f
    by simp
  then have "3 \<in> call_id ` set (raw_responses ?final)" by (simp only: set_map [symmetric]) simp
  then obtain r where r: "r \<in> set (raw_responses ?final)" "call_id r = 3" by auto
  have "\<forall>r\<in>set (raw_responses ?final). call_line (call_id r) \<in> set (fst (get_response_summary ?final))"
    using t [THEN conjunct2, THEN conjunct2, THEN conjunct2, THEN conjunct2, THEN conjunct2,
        THEN conjunct2, THEN conjunct2, THEN conjunct2, THEN conjunct2, THEN conjunct1]
    by simp
  then have c9: "call_line 3 \<in> set (fst (get_response_summary ?final))"
    using r by force
  show ?thesis using h c1 c2 c3 c5 c7 c9 by blast
qed

end
